theory Spec2Isabelle
  imports Main
begin

section \<open>Python objects, exceptions and generators\<close>

text \<open>
  The module \<^verbatim>\<open>zc/ngi/generator.py\<close> bridges a generator (the protocol routine) and
  the callbacks of a connection. Python is dynamically typed: connections, data chunks,
  close reasons and the owner of a bound method are all objects, here values of one type
  \<open>'v\<close>. The exceptions that the module names or that its own expressions can raise are
  constructors of \<open>exc\<close>; \<open>Error\<close> stands for every other exception class.
  \<open>StopIteration\<close> is how a generator that returns surfaces in its caller.
\<close>

datatype 'v exc =
    StopIteration
  | GeneratorExit 'v
  | AttributeError string
  | TypeError
  | IndexError
  | Error 'v

text \<open>
  What a caller can inject into a generator: \<^verbatim>\<open>next()\<close>, \<^verbatim>\<open>send(data)\<close> and
  \<^verbatim>\<open>throw(cls, exception)\<close>.
\<close>

datatype 'v resume = Next | Send 'v | Throw "'v exc"

text \<open>
  A generator object is the code of the routine together with the state of its frame.
  The code is a function from the local state at a suspension point (or at the start) and
  the injected resume to either the exception that leaves the generator
  (\<open>StopIteration\<close> for a return) or the local state at the next \<^verbatim>\<open>yield\<close>. The
  yielded value is left out: no caller in the module reads it. The code of the routine
  is a parameter of the development; one step of it is taken to end.
\<close>

datatype 's frame = Unstarted 's | Suspended 's | Finished

record ('v, 's) generator =
  body :: "'s \<Rightarrow> 'v resume \<Rightarrow> 'v exc + 's"
  frame :: "'s frame"

definition gen_run ::
  "('v, 's) generator \<Rightarrow> 's \<Rightarrow> 'v resume \<Rightarrow> ('v exc + unit) \<times> ('v, 's) generator" where
  "gen_run g s r =
     (case body g s r of
        Inl e \<Rightarrow> (Inl e, g\<lparr>frame := Finished\<rparr>)
      | Inr s' \<Rightarrow> (Inr (), g\<lparr>frame := Suspended s'\<rparr>))"

text \<open>
  Python's rules for the three methods: a finished generator raises \<open>StopIteration\<close>
  on \<^verbatim>\<open>next\<close> and \<^verbatim>\<open>send\<close> and raises the thrown exception on \<^verbatim>\<open>throw\<close>; a
  generator that has not started refuses a sent chunk with \<open>TypeError\<close> and is
  finished by a \<^verbatim>\<open>throw\<close>, which raises the exception at once.
\<close>

definition gen_next ::
  "('v, 's) generator \<Rightarrow> ('v exc + unit) \<times> ('v, 's) generator" where
  "gen_next g =
     (case frame g of
        Unstarted s \<Rightarrow> gen_run g s Next
      | Suspended s \<Rightarrow> gen_run g s Next
      | Finished \<Rightarrow> (Inl StopIteration, g))"

definition gen_send ::
  "'v \<Rightarrow> ('v, 's) generator \<Rightarrow> ('v exc + unit) \<times> ('v, 's) generator" where
  "gen_send d g =
     (case frame g of
        Unstarted s \<Rightarrow> (Inl TypeError, g)
      | Suspended s \<Rightarrow> gen_run g s (Send d)
      | Finished \<Rightarrow> (Inl StopIteration, g))"

definition gen_throw ::
  "'v exc \<Rightarrow> ('v, 's) generator \<Rightarrow> ('v exc + unit) \<times> ('v, 's) generator" where
  "gen_throw e g =
     (case frame g of
        Unstarted s \<Rightarrow> (Inl e, g\<lparr>frame := Finished\<rparr>)
      | Suspended s \<Rightarrow> gen_run g s (Throw e)
      | Finished \<Rightarrow> (Inl e, g))"

section \<open>The world: the calls that the module issues\<close>

text \<open>
  The module acts on its collaborators only by calling them. The world keeps the log of
  these calls, in order: the connection adapter, the routine function, the three
  generator methods, and the two connection methods \<^verbatim>\<open>setHandler\<close> and
  \<^verbatim>\<open>close\<close>. Only the calls written in the module are logged; what the routine does
  on its own while it runs is the routine's business. \<open>SetHandler c n\<close> is
  \<^verbatim>\<open>c.setHandler(h)\<close> for the handler object with identity \<open>n\<close>; the world hands out
  the identities of the objects it creates.
\<close>

datatype 'v call =
    AdapterCall 'v
  | FuncCall "'v list"
  | GenNext
  | GenSend 'v
  | GenThrow "'v exc"
  | SetHandler 'v nat
  | Close 'v

record 'v world =
  calls :: "'v call list"
  next_oid :: nat

definition log :: "'v call \<Rightarrow> 'v world \<Rightarrow> 'v world" where
  "log c w = w\<lparr>calls := calls w @ [c]\<rparr>"

fun is_conn_call :: "'v call \<Rightarrow> bool" where
  "is_conn_call (SetHandler c n) = True"
| "is_conn_call (Close c) = True"
| "is_conn_call _ = False"

definition conn_calls :: "'v call list \<Rightarrow> 'v call list" where
  "conn_calls cs = filter is_conn_call cs"

section \<open>ConnectionHandler\<close>

text \<open>
  An instance has at most one attribute, \<^verbatim>\<open>gen\<close>; \<open>None\<close> is the attribute that was
  never assigned. The connection is not an attribute: \<^verbatim>\<open>__init__\<close> uses it and drops
  it.
\<close>

record ('v, 's) ConnectionHandler =
  oid :: nat
  gen :: "('v, 's) generator option"

text \<open>
  \<^verbatim>\<open>ConnectionHandler(gen, connection)\<close>: the object is created, then
  \<^verbatim>\<open>__init__\<close> primes the generator. \<open>StopIteration\<close> returns at once, any other
  exception leaves the constructor, and a generator that suspended is stored and the
  object registered with the connection.
\<close>

definition ConnectionHandler_init ::
  "('v, 's) generator \<Rightarrow> 'v \<Rightarrow> 'v world \<Rightarrow>
     ('v exc + ('v, 's) ConnectionHandler) \<times> 'v world" where
  "ConnectionHandler_init g connection w =
     (let self = \<lparr>oid = next_oid w, gen = None\<rparr>;
          w1 = log GenNext (w\<lparr>next_oid := Suc (next_oid w)\<rparr>)
      in case gen_next g of
           (Inl e, g') \<Rightarrow>
             if e = StopIteration then (Inr self, w1) else (Inl e, w1)
         | (Inr u, g') \<Rightarrow>
             (Inr (self\<lparr>gen := Some g'\<rparr>), log (SetHandler connection (oid self)) w1))"

text \<open>
  The three callbacks. Each reads \<^verbatim>\<open>self.gen\<close> first, which raises
  \<open>AttributeError\<close> when the attribute is missing; no \<^verbatim>\<open>except\<close> clause of the
  module catches that. The generator is mutated in place, so the handler comes back
  with the generator's new state whatever the outcome.
\<close>

definition handle_input ::
  "('v, 's) ConnectionHandler \<Rightarrow> 'v \<Rightarrow> 'v \<Rightarrow> 'v world \<Rightarrow>
     ('v exc + unit) \<times> ('v, 's) ConnectionHandler \<times> 'v world" where
  "handle_input self connection data w =
     (case gen self of
        None \<Rightarrow> (Inl (AttributeError ''gen''), self, w)
      | Some g \<Rightarrow>
          (let (r, g') = gen_send data g;
               self' = self\<lparr>gen := Some g'\<rparr>;
               w1 = log (GenSend data) w
           in case r of
                Inl e \<Rightarrow>
                  if e = StopIteration then (Inr (), self', log (Close connection) w1)
                  else (Inl e, self', w1)
              | Inr u \<Rightarrow> (Inr (), self', w1)))"

fun is_GeneratorExit :: "'v exc \<Rightarrow> bool" where
  "is_GeneratorExit (GeneratorExit r) = True"
| "is_GeneratorExit _ = False"

definition handle_close ::
  "('v, 's) ConnectionHandler \<Rightarrow> 'v \<Rightarrow> 'v \<Rightarrow> 'v world \<Rightarrow>
     ('v exc + unit) \<times> ('v, 's) ConnectionHandler \<times> 'v world" where
  "handle_close self connection reason w =
     (case gen self of
        None \<Rightarrow> (Inl (AttributeError ''gen''), self, w)
      | Some g \<Rightarrow>
          (let (r, g') = gen_throw (GeneratorExit reason) g;
               self' = self\<lparr>gen := Some g'\<rparr>;
               w1 = log (GenThrow (GeneratorExit reason)) w
           in case r of
                Inl e \<Rightarrow>
                  if is_GeneratorExit e \<or> e = StopIteration then (Inr (), self', w1)
                  else (Inl e, self', w1)
              | Inr u \<Rightarrow> (Inr (), self', w1)))"

definition handle_exception ::
  "('v, 's) ConnectionHandler \<Rightarrow> 'v \<Rightarrow> 'v exc \<Rightarrow> 'v world \<Rightarrow>
     ('v exc + unit) \<times> ('v, 's) ConnectionHandler \<times> 'v world" where
  "handle_exception self connection exception w =
     (case gen self of
        None \<Rightarrow> (Inl (AttributeError ''gen''), self, w)
      | Some g \<Rightarrow>
          (let (r, g') = gen_throw exception g;
               self' = self\<lparr>gen := Some g'\<rparr>;
               w1 = log (GenThrow exception) w
           in (r, self', w1)))"

section \<open>Handler, the decorator\<close>

text \<open>
  \<^verbatim>\<open>func\<close> is the routine function: called with the arguments, it returns a
  generator and runs nothing of the routine. \<^verbatim>\<open>connection_adapter\<close> is \<open>None\<close> or a
  function on connections.
\<close>

record ('v, 's) Handler =
  func :: "'v list \<Rightarrow> ('v, 's) generator"
  connection_adapter :: "('v \<Rightarrow> 'v) option"

datatype ('v, 's) decorated =
    Decorator "('v list \<Rightarrow> ('v, 's) generator) \<Rightarrow> ('v, 's) Handler"
  | Wrapped "('v, 's) Handler"

definition handler ::
  "('v list \<Rightarrow> ('v, 's) generator) option \<Rightarrow> ('v \<Rightarrow> 'v) option \<Rightarrow> ('v, 's) decorated" where
  "handler f adapter =
     (case f of
        None \<Rightarrow> Decorator (\<lambda>f'. \<lparr>func = f', connection_adapter = adapter\<rparr>)
      | Some f' \<Rightarrow> Wrapped \<lparr>func = f', connection_adapter = adapter\<rparr>)"

text \<open>
  \<^verbatim>\<open>__call__(*args)\<close>. \<^verbatim>\<open>args[-1]\<close> of an empty tuple raises \<open>IndexError\<close>: with an
  adapter before anything is called, without one after the routine function was called.
\<close>

definition Handler_call ::
  "('v, 's) Handler \<Rightarrow> 'v list \<Rightarrow> 'v world \<Rightarrow>
     ('v exc + ('v, 's) ConnectionHandler) \<times> 'v world" where
  "Handler_call self args w =
     (case connection_adapter self of
        Some adapt \<Rightarrow>
          (if args = [] then (Inl IndexError, w)
           else
             (let c = adapt (last args);
                  w1 = log (AdapterCall (last args)) w;
                  args' = butlast args @ [c];
                  g = func self args';
                  w2 = log (FuncCall args') w1
              in ConnectionHandler_init g (last args') w2))
      | None \<Rightarrow>
          (let g = func self args;
               w1 = log (FuncCall args) w
           in if args = [] then (Inl IndexError, w1)
              else ConnectionHandler_init g (last args) w1))"

text \<open>
  \<^verbatim>\<open>__get__(inst, class_)\<close>: the attribute access returns the handler itself on the
  class and a function of the connection on an instance.
\<close>

datatype ('v, 's) attribute =
    Self "('v, 's) Handler"
  | Connected "'v \<Rightarrow> 'v world \<Rightarrow> ('v exc + ('v, 's) ConnectionHandler) \<times> 'v world"

definition Handler_get ::
  "('v, 's) Handler \<Rightarrow> 'v option \<Rightarrow> ('v, 's) attribute" where
  "Handler_get self inst =
     (case inst of
        None \<Rightarrow> Self self
      | Some i \<Rightarrow>
          (case connection_adapter self of
             Some adapt \<Rightarrow>
               Connected (\<lambda>connection w.
                 let w1 = log (AdapterCall connection) w;
                     c = adapt connection;
                     g = func self [i, c];
                     w2 = log (FuncCall [i, c]) w1
                 in ConnectionHandler_init g c w2)
           | None \<Rightarrow>
               Connected (\<lambda>connection w.
                 ConnectionHandler_init (func self [i, connection]) connection
                   (log (FuncCall [i, connection]) w))))"

section \<open>Dispatching events\<close>

text \<open>
  The connection layer calls the three callbacks. An event is one such call; a run
  delivers a list of events in order and collects what each call returned or raised.
\<close>

datatype 'v event =
    InputEvent 'v 'v
  | CloseEvent 'v 'v
  | ExceptionEvent 'v "'v exc"

fun deliver ::
  "'v event \<Rightarrow> ('v, 's) ConnectionHandler \<Rightarrow> 'v world \<Rightarrow>
     ('v exc + unit) \<times> ('v, 's) ConnectionHandler \<times> 'v world" where
  "deliver (InputEvent c d) self w = handle_input self c d w"
| "deliver (CloseEvent c r) self w = handle_close self c r w"
| "deliver (ExceptionEvent c e) self w = handle_exception self c e w"

fun run_events ::
  "'v event list \<Rightarrow> ('v, 's) ConnectionHandler \<Rightarrow> 'v world \<Rightarrow>
     ('v exc + unit) list \<times> ('v, 's) ConnectionHandler \<times> 'v world" where
  "run_events [] self w = ([], self, w)"
| "run_events (ev # evs) self w =
     (case deliver ev self w of
        (r, self', w') \<Rightarrow>
          (case run_events evs self' w' of
             (rs, self'', w'') \<Rightarrow> (r # rs, self'', w'')))"

text \<open>
  A handler is active while it holds a suspended generator. A dispatcher that follows the
  life cycle PRIMING, ACTIVE, DONE delivers events to an active handler only.
\<close>

definition active :: "('v, 's) ConnectionHandler \<Rightarrow> bool" where
  "active self =
     (case gen self of
        None \<Rightarrow> False
      | Some g \<Rightarrow> (case frame g of Suspended s \<Rightarrow> True | _ \<Rightarrow> False))"

fun dispatch ::
  "'v event list \<Rightarrow> ('v, 's) ConnectionHandler \<Rightarrow> 'v world \<Rightarrow>
     ('v exc + unit) list \<times> ('v, 's) ConnectionHandler \<times> 'v world" where
  "dispatch [] self w = ([], self, w)"
| "dispatch (ev # evs) self w =
     (if active self then
        (case deliver ev self w of
           (r, self', w') \<Rightarrow>
             (case dispatch evs self' w' of
                (rs, self'', w'') \<Rightarrow> (r # rs, self'', w'')))
      else ([], self, w))"

text \<open>
  Calling the result of the attribute access, as in \<^verbatim>\<open>Owner.method(*args)\<close> and
  \<^verbatim>\<open>owner.method(connection)\<close>. The function of an instance takes exactly one
  argument.
\<close>

definition call_attribute ::
  "('v, 's) attribute \<Rightarrow> 'v list \<Rightarrow> 'v world \<Rightarrow>
     ('v exc + ('v, 's) ConnectionHandler) \<times> 'v world" where
  "call_attribute a args w =
     (case a of
        Self h \<Rightarrow> Handler_call h args w
      | Connected f \<Rightarrow> (case args of [c] \<Rightarrow> f c w | _ \<Rightarrow> (Inl TypeError, w)))"

section \<open>Observations on the log\<close>

text \<open>The calls issued between an earlier and a later world.\<close>

definition issued :: "'v world \<Rightarrow> 'v world \<Rightarrow> 'v call list" where
  "issued w w' = drop (length (calls w)) (calls w')"

fun is_close :: "'v call \<Rightarrow> bool" where
  "is_close (Close c) = True"
| "is_close _ = False"

fun is_adapter_call :: "'v call \<Rightarrow> bool" where
  "is_adapter_call (AdapterCall c) = True"
| "is_adapter_call _ = False"

text \<open>
  The local state that a suspended routine reaches when it is sent the chunks of a list
  one after the other, provided that it suspends again after each of them.
\<close>

fun suspends_along ::
  "('s \<Rightarrow> 'v resume \<Rightarrow> 'v exc + 's) \<Rightarrow> 's \<Rightarrow> 'v list \<Rightarrow> 's option" where
  "suspends_along b s [] = Some s"
| "suspends_along b s (d # ds) =
     (case b s (Send d) of
        Inl e \<Rightarrow> None
      | Inr s' \<Rightarrow> suspends_along b s' ds)"

definition input_events :: "('v \<times> 'v) list \<Rightarrow> 'v event list" where
  "input_events ins = map (\<lambda>(c, d). InputEvent c d) ins"

section \<open>Example routines\<close>

text \<open>
  Four routines over natural numbers, used to evaluate the module on concrete inputs.
  \<^verbatim>\<open>
  def echo(connection):            def once(connection):
      received = []                    try:
      while 1:                             yield
          received.append((yield))     except:
                                           pass

  def nothing(connection):         def failing(connection):
      return                           try:
      yield                                data = yield
                                       except:
                                           raise Error(0)
                                       raise Error(data)
  \<close>
\<close>

definition echo_body :: "nat list \<Rightarrow> nat resume \<Rightarrow> nat exc + nat list" where
  "echo_body s r = (case r of Next \<Rightarrow> Inr s | Send d \<Rightarrow> Inr (s @ [d]) | Throw e \<Rightarrow> Inl e)"

definition once_body :: "nat list \<Rightarrow> nat resume \<Rightarrow> nat exc + nat list" where
  "once_body s r =
     (case r of Next \<Rightarrow> Inr s | Send d \<Rightarrow> Inl StopIteration | Throw e \<Rightarrow> Inl StopIteration)"

definition nothing_body :: "nat list \<Rightarrow> nat resume \<Rightarrow> nat exc + nat list" where
  "nothing_body s r = Inl StopIteration"

definition failing_body :: "nat list \<Rightarrow> nat resume \<Rightarrow> nat exc + nat list" where
  "failing_body s r =
     (case r of Next \<Rightarrow> Inr s | Send d \<Rightarrow> Inl (Error d) | Throw e \<Rightarrow> Inl (Error 0))"

definition fresh ::
  "(nat list \<Rightarrow> nat resume \<Rightarrow> nat exc + nat list) \<Rightarrow> (nat, nat list) generator" where
  "fresh b = \<lparr>body = b, frame = Unstarted []\<rparr>"

definition suspended ::
  "(nat list \<Rightarrow> nat resume \<Rightarrow> nat exc + nat list) \<Rightarrow> (nat, nat list) generator" where
  "suspended b = \<lparr>body = b, frame = Suspended []\<rparr>"

definition world0 :: "nat world" where
  "world0 = \<lparr>calls = [], next_oid = 0\<rparr>"

definition wrap :: "nat \<Rightarrow> nat" where
  "wrap c = c + 100"

definition echo_handler :: "(nat, nat list) Handler" where
  "echo_handler = \<lparr>func = (\<lambda>args. fresh echo_body), connection_adapter = Some wrap\<rparr>"

section \<open>What each operation issues\<close>

lemma issued_append [simp]: "issued w (w\<lparr>calls := calls w @ xs\<rparr>) = xs"
  by (simp add: issued_def)

lemma issued_same [simp]: "issued w w = []"
  by (simp add: issued_def)

lemma issued_log [simp]: "issued w (log c w) = [c]"
  by (simp add: issued_def log_def)

lemma issued_log2 [simp]: "issued w (log c2 (log c1 w)) = [c1, c2]"
  by (simp add: issued_def log_def)

lemma init_cases:
  "ConnectionHandler_init g c w =
     (case gen_next g of
        (Inl e, g') \<Rightarrow>
          (if e = StopIteration then Inr \<lparr>oid = next_oid w, gen = None\<rparr> else Inl e,
           w\<lparr>calls := calls w @ [GenNext], next_oid := Suc (next_oid w)\<rparr>)
      | (Inr u, g') \<Rightarrow>
          (Inr \<lparr>oid = next_oid w, gen = Some g'\<rparr>,
           w\<lparr>calls := calls w @ [GenNext, SetHandler c (next_oid w)],
             next_oid := Suc (next_oid w)\<rparr>))"
  by (cases "gen_next g") (auto simp: ConnectionHandler_init_def log_def Let_def split: sum.splits)

lemma init_issued:
  "issued w (snd (ConnectionHandler_init g c w)) =
     GenNext # (case fst (gen_next g) of Inl e \<Rightarrow> [] | Inr u \<Rightarrow> [SetHandler c (next_oid w)])"
  by (cases "gen_next g") (auto simp: init_cases issued_def split: sum.splits)

lemma handle_input_issued:
  "issued w (snd (snd (handle_input self c d w))) =
     (case gen self of
        None \<Rightarrow> []
      | Some g \<Rightarrow> GenSend d # (if fst (gen_send d g) = Inl StopIteration then [Close c] else []))"
  by (cases "gen self"; cases "gen_send d (the (gen self))")
     (auto simp: handle_input_def Let_def split: sum.splits)

lemma handle_close_issued:
  "issued w (snd (snd (handle_close self c r w))) =
     (case gen self of None \<Rightarrow> [] | Some g \<Rightarrow> [GenThrow (GeneratorExit r)])"
  by (cases "gen self"; cases "gen_throw (GeneratorExit r) (the (gen self))")
     (auto simp: handle_close_def Let_def split: sum.splits)

lemma handle_exception_issued:
  "issued w (snd (snd (handle_exception self c e w))) =
     (case gen self of None \<Rightarrow> [] | Some g \<Rightarrow> [GenThrow e])"
  by (cases "gen self"; cases "gen_throw e (the (gen self))")
     (auto simp: handle_exception_def Let_def split: sum.splits)

lemma gen_send_suspended:
  "frame g = Suspended s \<Longrightarrow> gen_send d g = gen_run g s (Send d)"
  by (simp add: gen_send_def)

lemma gen_throw_suspended:
  "frame g = Suspended s \<Longrightarrow> gen_throw e g = gen_run g s (Throw e)"
  by (simp add: gen_throw_def)

section \<open>Construction\<close>

text \<open>
  Claim C1. Constructing a handler registers it with the connection if and only if the
  priming step reaches a suspension point: \<^verbatim>\<open>setHandler\<close> is among the calls issued
  exactly when \<^verbatim>\<open>gen.next()\<close> returns, and then it is issued once, on the connection
  given, for the object that the constructor returns, which holds the primed generator.
  When priming raises (\<open>StopIteration\<close> for a routine that returns, or anything else)
  the only call issued is \<^verbatim>\<open>gen.next()\<close>: no connection method is called at all.
  After \<open>StopIteration\<close> the constructor returns an object without a generator; any
  other exception leaves the constructor.
\<close>

theorem init_registers_iff_primed:
  assumes "ConnectionHandler_init g c w = (r, w')"
  shows "((\<exists>c' n. SetHandler c' n \<in> set (issued w w')) \<longleftrightarrow> fst (gen_next g) = Inr ()) \<and>
         (fst (gen_next g) = Inr () \<longrightarrow>
            r = Inr \<lparr>oid = next_oid w, gen = Some (snd (gen_next g))\<rparr> \<and>
            issued w w' = [GenNext, SetHandler c (next_oid w)]) \<and>
         (\<forall>e. fst (gen_next g) = Inl e \<longrightarrow>
            issued w w' = [GenNext] \<and> conn_calls (issued w w') = [] \<and>
            (e = StopIteration \<longrightarrow> r = Inr \<lparr>oid = next_oid w, gen = None\<rparr>) \<and>
            (e \<noteq> StopIteration \<longrightarrow> r = Inl e))"
  using assms
  by (cases "gen_next g") (auto simp: init_cases conn_calls_def issued_def split: sum.splits if_splits)

theorem init_registers_iff_primed_witness:
  "issued world0 (snd (ConnectionHandler_init (fresh echo_body) 7 world0)) =
     [GenNext, SetHandler 7 0] \<and>
   fst (ConnectionHandler_init (fresh echo_body) 7 world0) =
     Inr \<lparr>oid = 0, gen = Some (suspended echo_body)\<rparr> \<and>
   issued world0 (snd (ConnectionHandler_init (fresh nothing_body) 7 world0)) = [GenNext] \<and>
   fst (ConnectionHandler_init (fresh nothing_body) 7 world0) = Inr \<lparr>oid = 0, gen = None\<rparr>"
proof -
  have n1: "gen_next (fresh echo_body) = (Inr (), suspended echo_body)"
    by (simp add: gen_next_def gen_run_def fresh_def suspended_def echo_body_def)
  have n2: "fst (gen_next (fresh nothing_body)) = Inl StopIteration"
    by (simp add: gen_next_def gen_run_def fresh_def nothing_body_def)
  have z: "next_oid world0 = 0"
    by (simp add: world0_def)
  show ?thesis
    using init_registers_iff_primed [where g = "fresh echo_body" and c = 7 and w = world0,
        OF surjective_pairing]
      init_registers_iff_primed [where g = "fresh nothing_body" and c = 7 and w = world0,
        OF surjective_pairing]
      n1 n2 z
    by simp
qed

section \<open>The callbacks, case by case\<close>

lemma handle_input_cases:
  "gen self = Some g \<Longrightarrow>
   handle_input self c d w =
     (if fst (gen_send d g) = Inl StopIteration
      then (Inr (), self\<lparr>gen := Some (snd (gen_send d g))\<rparr>, log (Close c) (log (GenSend d) w))
      else (fst (gen_send d g), self\<lparr>gen := Some (snd (gen_send d g))\<rparr>, log (GenSend d) w))"
  by (cases "gen_send d g") (auto simp: handle_input_def Let_def split: sum.splits)

lemma handle_close_cases:
  "gen self = Some g \<Longrightarrow>
   handle_close self c r w =
     (case fst (gen_throw (GeneratorExit r) g) of
        Inl e \<Rightarrow> if is_GeneratorExit e \<or> e = StopIteration then Inr () else Inl e
      | Inr u \<Rightarrow> Inr (),
      self\<lparr>gen := Some (snd (gen_throw (GeneratorExit r) g))\<rparr>,
      log (GenThrow (GeneratorExit r)) w)"
  by (cases "gen_throw (GeneratorExit r) g") (auto simp: handle_close_def Let_def split: sum.splits)

lemma handle_exception_cases:
  "gen self = Some g \<Longrightarrow>
   handle_exception self c e w =
     (fst (gen_throw e g), self\<lparr>gen := Some (snd (gen_throw e g))\<rparr>, log (GenThrow e) w)"
  by (cases "gen_throw e g") (auto simp: handle_exception_def Let_def)

lemma no_gen_raises:
  "gen self = None \<Longrightarrow>
   handle_input self c d w = (Inl (AttributeError ''gen''), self, w) \<and>
   handle_close self c r w = (Inl (AttributeError ''gen''), self, w) \<and>
   handle_exception self c e w = (Inl (AttributeError ''gen''), self, w)"
  by (simp add: handle_input_def handle_close_def handle_exception_def)

section \<open>Input events\<close>

text \<open>
  Claim C2. An active handler (it holds a suspended generator) whose routine returns
  when it is sent the chunk of an input event: \<^verbatim>\<open>handle_input\<close> returns normally,
  the generator is finished, and the calls issued are the \<^verbatim>\<open>send\<close> and then one
  \<^verbatim>\<open>close()\<close> on the connection of the event. This branch is the only place where
  the module calls \<^verbatim>\<open>close()\<close>: the constructor, \<^verbatim>\<open>handle_close\<close> and
  \<^verbatim>\<open>handle_exception\<close> never issue it, whatever the handler and the arguments, and
  \<^verbatim>\<open>handle_input\<close> issues it exactly when \<^verbatim>\<open>send\<close> raises \<open>StopIteration\<close>.
\<close>

theorem input_termination_closes:
  assumes "gen self = Some g" and "frame g = Suspended s"
    and "body g s (Send d) = Inl StopIteration"
  shows "handle_input self c d w =
           (Inr (), self\<lparr>gen := Some (g\<lparr>frame := Finished\<rparr>)\<rparr>,
            log (Close c) (log (GenSend d) w)) \<and>
         filter is_close (issued w (snd (snd (handle_input self c d w)))) = [Close c] \<and>
         (\<forall>g0 c0 w0. filter is_close (issued w0 (snd (ConnectionHandler_init g0 c0 w0))) = []) \<and>
         (\<forall>h c0 r0 w0. filter is_close (issued w0 (snd (snd (handle_close h c0 r0 w0)))) = []) \<and>
         (\<forall>h c0 e0 w0.
            filter is_close (issued w0 (snd (snd (handle_exception h c0 e0 w0)))) = []) \<and>
         (\<forall>h c0 d0 w0.
            filter is_close (issued w0 (snd (snd (handle_input h c0 d0 w0)))) =
              (if \<exists>g0. gen h = Some g0 \<and> fst (gen_send d0 g0) = Inl StopIteration
               then [Close c0] else []))"
proof -
  have send: "gen_send d g = (Inl StopIteration, g\<lparr>frame := Finished\<rparr>)"
    using assms(2,3) by (simp add: gen_send_suspended gen_run_def)
  have 1: "handle_input self c d w =
           (Inr (), self\<lparr>gen := Some (g\<lparr>frame := Finished\<rparr>)\<rparr>,
            log (Close c) (log (GenSend d) w))"
    using assms(1) send by (simp add: handle_input_cases)
  have 2: "filter is_close (issued w (snd (snd (handle_input self c d w)))) = [Close c]"
    by (simp add: 1)
  have 3: "filter is_close (issued w0 (snd (ConnectionHandler_init g0 c0 w0))) = []"
    for g0 :: "('c, 'd) generator" and c0 :: 'c and w0
    by (simp add: init_issued split: sum.splits)
  have 4: "filter is_close (issued w0 (snd (snd (handle_close h c0 r0 w0)))) = []"
    for h :: "('e, 'f) ConnectionHandler" and c0 r0 w0
    by (simp add: handle_close_issued split: option.splits)
  have 5: "filter is_close (issued w0 (snd (snd (handle_exception h c0 e0 w0)))) = []"
    for h :: "('g, 'h) ConnectionHandler" and c0 e0 w0
    by (simp add: handle_exception_issued split: option.splits)
  have 6: "filter is_close (issued w0 (snd (snd (handle_input h c0 d0 w0)))) =
              (if \<exists>g0. gen h = Some g0 \<and> fst (gen_send d0 g0) = Inl StopIteration
               then [Close c0] else [])"
    for h :: "('i, 'j) ConnectionHandler" and c0 d0 w0
    by (simp add: handle_input_issued split: option.splits)
  from 1 2 3 4 5 6 show ?thesis by blast
qed

theorem input_termination_closes_witness:
  "handle_input \<lparr>oid = 0, gen = Some (suspended once_body)\<rparr> 7 5 world0 =
     (Inr (), \<lparr>oid = 0, gen = Some \<lparr>body = once_body, frame = Finished\<rparr>\<rparr>,
      \<lparr>calls = [GenSend 5, Close 7], next_oid = 0\<rparr>)"
proof -
  have "once_body [] (Send 5) = Inl StopIteration"
    by (simp add: once_body_def)
  then show ?thesis
    using input_termination_closes [where self = "\<lparr>oid = 0, gen = Some (suspended once_body)\<rparr>"
        and g = "suspended once_body" and s = "[]" and d = 5 and c = 7 and w = world0,
        THEN conjunct1]
    by (simp add: suspended_def log_def world0_def)
qed

section \<open>Close events\<close>

text \<open>
  Claim C3. A close event throws \<open>GeneratorExit reason\<close> into the suspended routine
  of an active handler. When the routine returns (\<open>StopIteration\<close>) or lets a
  \<open>GeneratorExit\<close> leave it, \<^verbatim>\<open>handle_close\<close> returns normally and the only call
  issued is the \<^verbatim>\<open>throw\<close>: no \<^verbatim>\<open>close()\<close>, nothing else. An exception of any
  other class that leaves the routine is raised to the caller as it is. A routine that
  suspends again makes the callback return normally too. The \<^verbatim>\<open>except\<close> clause
  matches by class, so the first case covers the cancellation signal that was thrown in
  and any other \<open>GeneratorExit\<close>.
\<close>

theorem close_event_swallows_cancellation:
  assumes "gen self = Some g" and "frame g = Suspended s"
  shows "(\<forall>e. body g s (Throw (GeneratorExit reason)) = Inl e \<and>
               (e = StopIteration \<or> is_GeneratorExit e) \<longrightarrow>
            handle_close self c reason w =
              (Inr (), self\<lparr>gen := Some (g\<lparr>frame := Finished\<rparr>)\<rparr>,
               log (GenThrow (GeneratorExit reason)) w)) \<and>
         (\<forall>e. body g s (Throw (GeneratorExit reason)) = Inl e \<and>
               e \<noteq> StopIteration \<and> \<not> is_GeneratorExit e \<longrightarrow>
            handle_close self c reason w =
              (Inl e, self\<lparr>gen := Some (g\<lparr>frame := Finished\<rparr>)\<rparr>,
               log (GenThrow (GeneratorExit reason)) w)) \<and>
         (\<forall>s'. body g s (Throw (GeneratorExit reason)) = Inr s' \<longrightarrow>
            handle_close self c reason w =
              (Inr (), self\<lparr>gen := Some (g\<lparr>frame := Suspended s'\<rparr>)\<rparr>,
               log (GenThrow (GeneratorExit reason)) w)) \<and>
         filter is_close (issued w (snd (snd (handle_close self c reason w)))) = []"
  using assms
  by (auto simp: handle_close_cases gen_throw_suspended gen_run_def handle_close_issued
      split: sum.splits)

theorem close_event_swallows_cancellation_witness:
  "handle_close \<lparr>oid = 0, gen = Some (suspended once_body)\<rparr> 7 3 world0 =
     (Inr (), \<lparr>oid = 0, gen = Some \<lparr>body = once_body, frame = Finished\<rparr>\<rparr>,
      \<lparr>calls = [GenThrow (GeneratorExit 3)], next_oid = 0\<rparr>) \<and>
   handle_close \<lparr>oid = 0, gen = Some (suspended echo_body)\<rparr> 7 3 world0 =
     (Inr (), \<lparr>oid = 0, gen = Some \<lparr>body = echo_body, frame = Finished\<rparr>\<rparr>,
      \<lparr>calls = [GenThrow (GeneratorExit 3)], next_oid = 0\<rparr>) \<and>
   handle_close \<lparr>oid = 0, gen = Some (suspended failing_body)\<rparr> 7 3 world0 =
     (Inl (Error 0), \<lparr>oid = 0, gen = Some \<lparr>body = failing_body, frame = Finished\<rparr>\<rparr>,
      \<lparr>calls = [GenThrow (GeneratorExit 3)], next_oid = 0\<rparr>)"
  using
    close_event_swallows_cancellation [where self = "\<lparr>oid = 0, gen = Some (suspended once_body)\<rparr>"
      and g = "suspended once_body" and s = "[]" and reason = 3 and c = 7 and w = world0]
    close_event_swallows_cancellation [where self = "\<lparr>oid = 0, gen = Some (suspended echo_body)\<rparr>"
      and g = "suspended echo_body" and s = "[]" and reason = 3 and c = 7 and w = world0]
    close_event_swallows_cancellation [where self = "\<lparr>oid = 0, gen = Some (suspended failing_body)\<rparr>"
      and g = "suspended failing_body" and s = "[]" and reason = 3 and c = 7 and w = world0]
  by (simp add: suspended_def once_body_def echo_body_def failing_body_def log_def world0_def)

section \<open>Events after a priming that returned\<close>

text \<open>
  Claim C9. When priming raises \<open>StopIteration\<close> the constructor returns an object
  whose \<^verbatim>\<open>gen\<close> attribute was never assigned. Every callback of that object fails
  with the \<open>AttributeError\<close> of the attribute lookup, for every argument and in every
  world, and issues no call.
\<close>

theorem unprimed_handler_has_no_gen:
  assumes "fst (gen_next g) = Inl StopIteration"
  shows "\<exists>self w'. ConnectionHandler_init g c w = (Inr self, w') \<and> gen self = None \<and>
           (\<forall>c' d w1. handle_input self c' d w1 = (Inl (AttributeError ''gen''), self, w1)) \<and>
           (\<forall>c' r w1. handle_close self c' r w1 = (Inl (AttributeError ''gen''), self, w1)) \<and>
           (\<forall>c' e w1. handle_exception self c' e w1 = (Inl (AttributeError ''gen''), self, w1))"
proof -
  obtain g' where n: "gen_next g = (Inl StopIteration, g')"
    using assms by (cases "gen_next g") simp
  let ?self = "\<lparr>oid = next_oid w, gen = None\<rparr> :: ('a, 'b) ConnectionHandler"
  have "ConnectionHandler_init g c w =
          (Inr ?self, w\<lparr>calls := calls w @ [GenNext], next_oid := Suc (next_oid w)\<rparr>)"
    by (simp add: init_cases n)
  moreover have "gen ?self = None" by simp
  ultimately show ?thesis
    using no_gen_raises [of ?self] by blast
qed

theorem unprimed_handler_has_no_gen_witness:
  "\<exists>self w'. ConnectionHandler_init (fresh nothing_body) 7 world0 = (Inr self, w') \<and>
     gen self = None \<and>
     handle_input self 7 5 w' = (Inl (AttributeError ''gen''), self, w') \<and>
     handle_close self 7 3 w' = (Inl (AttributeError ''gen''), self, w') \<and>
     handle_exception self 7 (Error 1) w' = (Inl (AttributeError ''gen''), self, w')"
proof -
  have "fst (gen_next (fresh nothing_body)) = Inl StopIteration"
    by (simp add: gen_next_def gen_run_def fresh_def nothing_body_def)
  from unprimed_handler_has_no_gen [OF this, of 7 world0] show ?thesis
    by blast
qed

section \<open>The connection of an input event\<close>

lemma init_calls:
  "calls (snd (ConnectionHandler_init g c w)) =
     calls w @ GenNext #
       (case fst (gen_next g) of Inl e \<Rightarrow> [] | Inr u \<Rightarrow> [SetHandler c (next_oid w)])"
  by (cases "gen_next g") (auto simp: init_cases split: sum.splits)

lemma log_simps [simp]:
  "calls (log x w) = calls w @ [x]" "next_oid (log x w) = next_oid w"
  by (simp_all add: log_def)

text \<open>
  Claim C10. The handler keeps no connection. The object that the constructor returns is
  the same whichever connection it was given, and when \<^verbatim>\<open>send\<close> raises
  \<open>StopIteration\<close> in an input event, \<^verbatim>\<open>close()\<close> is called on the connection
  that came with the event: the connection given to the constructor is closed only if it
  is that one.
\<close>

theorem close_goes_to_event_connection:
  assumes "ConnectionHandler_init g c1 w = (Inr self, w1)"
    and "gen self = Some g1" and "fst (gen_send d g1) = Inl StopIteration"
  shows "(\<forall>c. fst (ConnectionHandler_init g c w) = Inr self) \<and>
         handle_input self c2 d w2 =
           (Inr (), self\<lparr>gen := Some (snd (gen_send d g1))\<rparr>,
            log (Close c2) (log (GenSend d) w2)) \<and>
         issued w2 (snd (snd (handle_input self c2 d w2))) = [GenSend d, Close c2] \<and>
         (Close c1 \<in> set (issued w2 (snd (snd (handle_input self c2 d w2)))) \<longleftrightarrow> c1 = c2)"
proof -
  have "fst (ConnectionHandler_init g c w) = fst (ConnectionHandler_init g c1 w)" for c
    by (cases "gen_next g") (auto simp: init_cases split: sum.splits)
  then have 1: "\<forall>c. fst (ConnectionHandler_init g c w) = Inr self"
    using assms(1) by simp
  have 2: "handle_input self c2 d w2 =
           (Inr (), self\<lparr>gen := Some (snd (gen_send d g1))\<rparr>,
            log (Close c2) (log (GenSend d) w2))"
    using assms(2,3) by (simp add: handle_input_cases)
  from 1 2 show ?thesis by simp
qed

theorem close_goes_to_event_connection_witness:
  "ConnectionHandler_init (fresh once_body) 1 world0 =
     (Inr \<lparr>oid = 0, gen = Some (suspended once_body)\<rparr>,
      \<lparr>calls = [GenNext, SetHandler 1 0], next_oid = 1\<rparr>) \<and>
   issued \<lparr>calls = [GenNext, SetHandler 1 0], next_oid = 1\<rparr>
     (snd (snd (handle_input \<lparr>oid = 0, gen = Some (suspended once_body)\<rparr> 2 5
        \<lparr>calls = [GenNext, SetHandler 1 0], next_oid = 1\<rparr>))) = [GenSend 5, Close 2]"
proof -
  have a: "ConnectionHandler_init (fresh once_body) 1 world0 =
     (Inr \<lparr>oid = 0, gen = Some (suspended once_body)\<rparr>,
      \<lparr>calls = [GenNext, SetHandler 1 0], next_oid = 1\<rparr>)"
    by (simp add: init_cases gen_next_def gen_run_def fresh_def suspended_def
        once_body_def world0_def)
  have b: "gen \<lparr>oid = 0, gen = Some (suspended once_body)\<rparr> = Some (suspended once_body)"
    by simp
  have c: "fst (gen_send 5 (suspended once_body)) = Inl StopIteration"
    by (simp add: gen_send_def gen_run_def suspended_def once_body_def)
  from close_goes_to_event_connection [OF a b c, of 2] a show ?thesis
    by blast
qed

section \<open>Exception events\<close>

text \<open>
  Claim C4, as stated, says that an exception event relays what the routine does next in
  the way the input and close paths do. For a routine that returns it does not: the input
  path closes the connection and returns, the close path returns, and the exception path
  raises \<open>StopIteration\<close> to the caller and closes nothing.
\<close>

theorem exception_event_termination_counterexample:
  "handle_exception \<lparr>oid = 0, gen = Some (suspended once_body)\<rparr> 7 (Error 5) world0 =
     (Inl StopIteration, \<lparr>oid = 0, gen = Some \<lparr>body = once_body, frame = Finished\<rparr>\<rparr>,
      \<lparr>calls = [GenThrow (Error 5)], next_oid = 0\<rparr>) \<and>
   handle_input \<lparr>oid = 0, gen = Some (suspended once_body)\<rparr> 7 5 world0 =
     (Inr (), \<lparr>oid = 0, gen = Some \<lparr>body = once_body, frame = Finished\<rparr>\<rparr>,
      \<lparr>calls = [GenSend 5, Close 7], next_oid = 0\<rparr>) \<and>
   handle_close \<lparr>oid = 0, gen = Some (suspended once_body)\<rparr> 7 5 world0 =
     (Inr (), \<lparr>oid = 0, gen = Some \<lparr>body = once_body, frame = Finished\<rparr>\<rparr>,
      \<lparr>calls = [GenThrow (GeneratorExit 5)], next_oid = 0\<rparr>)"
  by (simp add: handle_exception_def handle_input_def handle_close_def gen_throw_def
      gen_send_def gen_run_def suspended_def once_body_def world0_def log_def)

text \<open>
  Claim C4, amended. An exception event throws the exception into the suspended routine
  of an active handler, and \<^verbatim>\<open>handle_exception\<close> catches nothing: if the routine
  suspends again the callback returns normally; every exception that leaves the routine,
  the \<open>StopIteration\<close> of a return included, is raised to the caller as it is. The
  only call issued is the \<^verbatim>\<open>throw\<close>, so the connection is not closed.
\<close>

theorem exception_event_passes_through:
  assumes "gen self = Some g" and "frame g = Suspended s"
  shows "handle_exception self c e w =
           (case body g s (Throw e) of
              Inl x \<Rightarrow> (Inl x, self\<lparr>gen := Some (g\<lparr>frame := Finished\<rparr>)\<rparr>, log (GenThrow e) w)
            | Inr s' \<Rightarrow> (Inr (), self\<lparr>gen := Some (g\<lparr>frame := Suspended s'\<rparr>)\<rparr>,
                          log (GenThrow e) w)) \<and>
         issued w (snd (snd (handle_exception self c e w))) = [GenThrow e]"
  using assms
  by (simp add: handle_exception_cases gen_throw_suspended gen_run_def handle_exception_issued
      split: sum.splits)

theorem exception_event_passes_through_witness:
  "handle_exception \<lparr>oid = 0, gen = Some (suspended failing_body)\<rparr> 7 (Error 5) world0 =
     (Inl (Error 0), \<lparr>oid = 0, gen = Some \<lparr>body = failing_body, frame = Finished\<rparr>\<rparr>,
      \<lparr>calls = [GenThrow (Error 5)], next_oid = 0\<rparr>) \<and>
   handle_exception \<lparr>oid = 0, gen = Some (suspended once_body)\<rparr> 7 (Error 5) world0 =
     (Inl StopIteration, \<lparr>oid = 0, gen = Some \<lparr>body = once_body, frame = Finished\<rparr>\<rparr>,
      \<lparr>calls = [GenThrow (Error 5)], next_oid = 0\<rparr>)"
  using
    exception_event_passes_through [where self = "\<lparr>oid = 0, gen = Some (suspended failing_body)\<rparr>"
      and g = "suspended failing_body" and s = "[]" and e = "Error 5" and c = 7 and w = world0]
    exception_event_passes_through [where self = "\<lparr>oid = 0, gen = Some (suspended once_body)\<rparr>"
      and g = "suspended once_body" and s = "[]" and e = "Error 5" and c = 7 and w = world0]
  by (simp add: suspended_def failing_body_def once_body_def world0_def log_def)

section \<open>The connection adapter\<close>

text \<open>
  Claim C5. With a connection adapter and at least one argument, calling the handler
  applies the adapter exactly once, to the last argument; the result is the last argument of the
  call of the routine function and the connection given to the constructor, which
  registers the new object on it when priming suspends. The calls issued are the adapter
  call, the call of the routine function, \<^verbatim>\<open>gen.next()\<close> and, after a priming that
  suspended, \<^verbatim>\<open>setHandler\<close> on the adapted connection. The function obtained through
  an instance does the same with the instance and the adapted connection as arguments.
\<close>

theorem adapter_applied_once:
  assumes "connection_adapter self = Some t" and "args \<noteq> []"
  shows "Handler_call self args w =
           ConnectionHandler_init (func self (butlast args @ [t (last args)])) (t (last args))
             (log (FuncCall (butlast args @ [t (last args)])) (log (AdapterCall (last args)) w)) \<and>
         issued w (snd (Handler_call self args w)) =
           [AdapterCall (last args), FuncCall (butlast args @ [t (last args)]), GenNext] @
           (case fst (gen_next (func self (butlast args @ [t (last args)]))) of
              Inl e \<Rightarrow> []
            | Inr u \<Rightarrow> [SetHandler (t (last args)) (next_oid w)]) \<and>
         call_attribute (Handler_get self (Some i)) [c] w =
           ConnectionHandler_init (func self [i, t c]) (t c)
             (log (FuncCall [i, t c]) (log (AdapterCall c) w)) \<and>
         issued w (snd (call_attribute (Handler_get self (Some i)) [c] w)) =
           [AdapterCall c, FuncCall [i, t c], GenNext] @
           (case fst (gen_next (func self [i, t c])) of
              Inl e \<Rightarrow> []
            | Inr u \<Rightarrow> [SetHandler (t c) (next_oid w)]) \<and>
         filter is_adapter_call (issued w (snd (Handler_call self args w))) =
           [AdapterCall (last args)] \<and>
         filter is_adapter_call
           (issued w (snd (call_attribute (Handler_get self (Some i)) [c] w))) =
           [AdapterCall c]"
proof -
  have 1: "Handler_call self args w =
           ConnectionHandler_init (func self (butlast args @ [t (last args)])) (t (last args))
             (log (FuncCall (butlast args @ [t (last args)])) (log (AdapterCall (last args)) w))"
    using assms by (simp add: Handler_call_def Let_def)
  have 2: "call_attribute (Handler_get self (Some i)) [c] w =
           ConnectionHandler_init (func self [i, t c]) (t c)
             (log (FuncCall [i, t c]) (log (AdapterCall c) w))"
    using assms(1) by (simp add: call_attribute_def Handler_get_def Let_def)
  show ?thesis
    unfolding 1 2 by (simp add: issued_def init_calls split: sum.splits)
qed

theorem adapter_applied_once_witness:
  "issued world0 (snd (Handler_call echo_handler [9, 1] world0)) =
     [AdapterCall 1, FuncCall [9, 101], GenNext, SetHandler 101 0] \<and>
   issued world0 (snd (call_attribute (Handler_get echo_handler (Some 9)) [1] world0)) =
     [AdapterCall 1, FuncCall [9, 101], GenNext, SetHandler 101 0]"
proof -
  have a: "connection_adapter echo_handler = Some wrap"
    by (simp add: echo_handler_def)
  have b: "[9, 1] \<noteq> ([] :: nat list)"
    by simp
  have n: "gen_next (func echo_handler xs) = (Inr (), suspended echo_body)" for xs
    by (simp add: echo_handler_def gen_next_def gen_run_def fresh_def suspended_def echo_body_def)
  note t = adapter_applied_once [OF a b, of world0 9 1]
  have 1: "issued world0 (snd (Handler_call echo_handler [9, 1] world0)) =
     [AdapterCall 1, FuncCall [9, 101], GenNext, SetHandler 101 0]"
    using t [THEN conjunct2, THEN conjunct1] by (simp add: n wrap_def world0_def)
  have 2: "issued world0 (snd (call_attribute (Handler_get echo_handler (Some 9)) [1] world0)) =
     [AdapterCall 1, FuncCall [9, 101], GenNext, SetHandler 101 0]"
    using t [THEN conjunct2, THEN conjunct2, THEN conjunct2] by (simp add: n wrap_def world0_def)
  from 1 2 show ?thesis by simp
qed

section \<open>Attribute access\<close>

text \<open>
  Claim C7. On the class (no instance) the attribute access returns the handler itself.
  On an instance it returns a function of the connection that applies the adapter, when
  there is one, calls the routine function with the instance and the connection and
  constructs the connection handler: exactly what calling the handler with the instance
  and the connection does.
\<close>

theorem get_binds_instance:
  "Handler_get self None = Self self \<and>
   (\<forall>i. \<exists>f. Handler_get self (Some i) = Connected f \<and>
      (\<forall>c w. f c w = Handler_call self [i, c] w) \<and>
      (\<forall>c w. f c w =
         (case connection_adapter self of
            None \<Rightarrow>
              ConnectionHandler_init (func self [i, c]) c (log (FuncCall [i, c]) w)
          | Some t \<Rightarrow>
              ConnectionHandler_init (func self [i, t c]) (t c)
                (log (FuncCall [i, t c]) (log (AdapterCall c) w)))) \<and>
      (\<forall>c w. call_attribute (Handler_get self (Some i)) [c] w = Handler_call self [i, c] w))"
  by (cases "connection_adapter self")
     (simp_all add: Handler_get_def Handler_call_def call_attribute_def Let_def)

theorem get_binds_instance_witness:
  "Handler_get echo_handler None = Self echo_handler \<and>
   call_attribute (Handler_get echo_handler (Some 9)) [1] world0 =
     (Inr \<lparr>oid = 0, gen = Some (suspended echo_body)\<rparr>,
      \<lparr>calls = [AdapterCall 1, FuncCall [9, 101], GenNext, SetHandler 101 0], next_oid = 1\<rparr>)"
proof -
  have h: "Handler_call echo_handler [9, 1] world0 =
     (Inr \<lparr>oid = 0, gen = Some (suspended echo_body)\<rparr>,
      \<lparr>calls = [AdapterCall 1, FuncCall [9, 101], GenNext, SetHandler 101 0], next_oid = 1\<rparr>)"
    by (simp add: Handler_call_def echo_handler_def init_cases gen_next_def gen_run_def
        fresh_def suspended_def echo_body_def wrap_def world0_def log_def)
  have g: "call_attribute (Handler_get echo_handler (Some 9)) [1] world0 =
      Handler_call echo_handler [9, 1] world0"
    using get_binds_instance [of echo_handler] by blast
  have s: "Handler_get echo_handler None = Self echo_handler"
    using get_binds_instance [of echo_handler] by blast
  from g s h show ?thesis by simp
qed

section \<open>A run of input events\<close>

lemma run_inputs:
  "gen self = Some g \<Longrightarrow> frame g = Suspended s \<Longrightarrow>
   suspends_along (body g) s (map snd ins) = Some s' \<Longrightarrow>
   run_events (input_events ins) self w =
     (replicate (length ins) (Inr ()), self\<lparr>gen := Some (g\<lparr>frame := Suspended s'\<rparr>)\<rparr>,
      w\<lparr>calls := calls w @ map GenSend (map snd ins)\<rparr>)"
proof (induction ins arbitrary: self g s w)
  case Nil
  then show ?case by (simp add: input_events_def)
next
  case (Cons a ins)
  obtain c d where a: "a = (c, d)" by (cases a)
  from Cons.prems(3) a obtain s1 where
    b: "body g s (Send d) = Inr s1" and
    rest: "suspends_along (body g) s1 (map snd ins) = Some s'"
    by (auto split: sum.splits)
  let ?g1 = "g\<lparr>frame := Suspended s1\<rparr>"
  let ?self1 = "self\<lparr>gen := Some ?g1\<rparr>"
  have send: "gen_send d g = (Inr (), ?g1)"
    using Cons.prems(2) b by (simp add: gen_send_suspended gen_run_def)
  have step: "handle_input self c d w = (Inr (), ?self1, log (GenSend d) w)"
    using Cons.prems(1) send by (simp add: handle_input_cases)
  have ih: "run_events (input_events ins) ?self1 (log (GenSend d) w) =
     (replicate (length ins) (Inr ()), ?self1\<lparr>gen := Some (?g1\<lparr>frame := Suspended s'\<rparr>)\<rparr>,
      (log (GenSend d) w)\<lparr>calls := calls (log (GenSend d) w) @ map GenSend (map snd ins)\<rparr>)"
    using Cons.IH [of ?self1 ?g1 s1 "log (GenSend d) w"] rest by simp
  show ?case
    using step ih by (simp add: a input_events_def log_def)
qed

text \<open>
  Claim C6. An active handler is delivered a list of input events, each with its
  connection and its chunk, and the routine suspends again after every chunk. Then every
  callback returns normally, the calls issued are exactly one \<^verbatim>\<open>send\<close> per event, in
  the order of delivery and with the chunk of the event, the routine is left suspended in
  the state that these chunks lead to, and \<^verbatim>\<open>close()\<close> is not called.
\<close>

theorem inputs_resume_in_order:
  assumes "gen self = Some g" and "frame g = Suspended s"
    and "suspends_along (body g) s (map snd ins) = Some s'"
  shows "run_events (input_events ins) self w =
           (replicate (length ins) (Inr ()), self\<lparr>gen := Some (g\<lparr>frame := Suspended s'\<rparr>)\<rparr>,
            w\<lparr>calls := calls w @ map GenSend (map snd ins)\<rparr>) \<and>
         issued w (snd (snd (run_events (input_events ins) self w))) =
           map GenSend (map snd ins) \<and>
         filter is_close (issued w (snd (snd (run_events (input_events ins) self w)))) = []"
proof -
  have "filter is_close (map GenSend ds) = []" for ds :: "'a list"
    by (induction ds) simp_all
  then show ?thesis
    by (simp add: run_inputs [OF assms] issued_def)
qed

theorem inputs_resume_in_order_witness:
  "run_events (input_events [(1, 5), (1, 6), (2, 7)])
     \<lparr>oid = 0, gen = Some (suspended echo_body)\<rparr> world0 =
     ([Inr (), Inr (), Inr ()],
      \<lparr>oid = 0, gen = Some \<lparr>body = echo_body, frame = Suspended [5, 6, 7]\<rparr>\<rparr>,
      \<lparr>calls = [GenSend 5, GenSend 6, GenSend 7], next_oid = 0\<rparr>)"
proof -
  have "suspends_along echo_body [] (map snd [(1::nat, 5), (1, 6), (2, 7)]) = Some [5, 6, 7]"
    by (simp add: echo_body_def)
  then show ?thesis
    using inputs_resume_in_order [where self = "\<lparr>oid = 0, gen = Some (suspended echo_body)\<rparr>"
        and g = "suspended echo_body" and s = "[]" and s' = "[5, 6, 7]"
        and ins = "[(1, 5), (1, 6), (2, 7)]" and w = world0, THEN conjunct1]
    by (simp add: suspended_def world0_def)
qed

section \<open>The connection calls of a whole life\<close>

lemma deliver_calls: "\<exists>xs. calls (snd (snd (deliver ev h w))) = calls w @ xs"
proof (cases ev)
  case (InputEvent c d)
  then show ?thesis
    by (cases "gen h") (simp_all add: no_gen_raises handle_input_cases)
next
  case (CloseEvent c r)
  then show ?thesis
    by (cases "gen h") (simp_all add: no_gen_raises handle_close_cases)
next
  case (ExceptionEvent c e)
  then show ?thesis
    by (cases "gen h") (simp_all add: no_gen_raises handle_exception_cases)
qed

lemma deliver_conn_calls:
  "conn_calls (issued w (snd (snd (deliver ev h w)))) =
     (case ev of
        InputEvent c d \<Rightarrow>
          if \<exists>g. gen h = Some g \<and> fst (gen_send d g) = Inl StopIteration then [Close c] else []
      | CloseEvent c r \<Rightarrow> []
      | ExceptionEvent c e \<Rightarrow> [])"
  by (cases ev)
     (simp_all add: conn_calls_def handle_input_issued handle_close_issued
        handle_exception_issued split: option.splits)

lemma deliver_conn_calls_origin:
  "x \<in> set (conn_calls (issued w (snd (snd (deliver ev h w))))) \<Longrightarrow>
   \<exists>c d. x = Close c \<and> ev = InputEvent c d"
  by (cases ev)
     (auto simp: conn_calls_def handle_input_issued handle_close_issued
        handle_exception_issued split: option.splits if_splits)

lemma conn_calls_append [simp]: "conn_calls (xs @ ys) = conn_calls xs @ conn_calls ys"
  by (simp add: conn_calls_def)

lemma run_events_Cons:
  "run_events (ev # evs) h w =
     (fst (deliver ev h w) #
        fst (run_events evs (fst (snd (deliver ev h w))) (snd (snd (deliver ev h w)))),
      snd (run_events evs (fst (snd (deliver ev h w))) (snd (snd (deliver ev h w)))))"
  by (simp split: prod.splits)

lemma run_events_calls: "\<exists>xs. calls (snd (snd (run_events evs h w))) = calls w @ xs"
proof (induction evs arbitrary: h w)
  case Nil
  then show ?case by simp
next
  case (Cons ev evs)
  let ?h1 = "fst (snd (deliver ev h w))" and ?w1 = "snd (snd (deliver ev h w))"
  obtain xs where xs: "calls ?w1 = calls w @ xs"
    using deliver_calls by blast
  obtain ys where "calls (snd (snd (run_events evs ?h1 ?w1))) = calls ?w1 @ ys"
    using Cons.IH by blast
  with xs have "calls (snd (snd (run_events (ev # evs) h w))) = calls w @ (xs @ ys)"
    by (simp add: run_events_Cons del: run_events.simps)
  then show ?case by blast
qed

lemma run_events_issued_Cons:
  "issued w (snd (snd (run_events (ev # evs) h w))) =
     issued w (snd (snd (deliver ev h w))) @
     issued (snd (snd (deliver ev h w)))
       (snd (snd (run_events evs (fst (snd (deliver ev h w))) (snd (snd (deliver ev h w))))))"
proof -
  let ?h1 = "fst (snd (deliver ev h w))" and ?w1 = "snd (snd (deliver ev h w))"
  obtain xs where xs: "calls ?w1 = calls w @ xs"
    using deliver_calls by blast
  obtain ys where ys: "calls (snd (snd (run_events evs ?h1 ?w1))) = calls ?w1 @ ys"
    using run_events_calls by blast
  from xs ys show ?thesis
    by (simp add: run_events_Cons issued_def del: run_events.simps)
qed

lemma run_events_conn_calls:
  "x \<in> set (conn_calls (issued w (snd (snd (run_events evs h w))))) \<Longrightarrow>
   \<exists>c d. x = Close c \<and> InputEvent c d \<in> set evs"
proof (induction evs arbitrary: h w)
  case Nil
  then show ?case by (simp add: conn_calls_def)
next
  case (Cons ev evs)
  let ?h1 = "fst (snd (deliver ev h w))" and ?w1 = "snd (snd (deliver ev h w))"
  from Cons.prems consider
    "x \<in> set (conn_calls (issued w ?w1))" |
    "x \<in> set (conn_calls (issued ?w1 (snd (snd (run_events evs ?h1 ?w1)))))"
    by (auto simp: run_events_issued_Cons simp del: run_events.simps)
  then show ?case
  proof cases
    case 1
    from deliver_conn_calls_origin [OF this] show ?thesis by auto
  next
    case 2
    from Cons.IH [OF this] show ?thesis by auto
  qed
qed

lemma dispatch_inactive: "\<not> active h \<Longrightarrow> dispatch evs h w = ([], h, w)"
  by (cases evs) simp_all

lemma dispatch_Cons:
  "active h \<Longrightarrow>
   dispatch (ev # evs) h w =
     (fst (deliver ev h w) #
        fst (dispatch evs (fst (snd (deliver ev h w))) (snd (snd (deliver ev h w)))),
      snd (dispatch evs (fst (snd (deliver ev h w))) (snd (snd (deliver ev h w)))))"
  by (simp split: prod.splits)

lemma dispatch_calls: "\<exists>xs. calls (snd (snd (dispatch evs h w))) = calls w @ xs"
proof (induction evs arbitrary: h w)
  case Nil
  then show ?case by simp
next
  case (Cons ev evs)
  show ?case
  proof (cases "active h")
    case False
    then show ?thesis by (simp add: dispatch_inactive)
  next
    case True
    let ?h1 = "fst (snd (deliver ev h w))" and ?w1 = "snd (snd (deliver ev h w))"
    obtain xs where xs: "calls ?w1 = calls w @ xs"
      using deliver_calls by blast
    obtain ys where "calls (snd (snd (dispatch evs ?h1 ?w1))) = calls ?w1 @ ys"
      using Cons.IH by blast
    with xs True have "calls (snd (snd (dispatch (ev # evs) h w))) = calls w @ (xs @ ys)"
      by (simp add: dispatch_Cons del: dispatch.simps)
    then show ?thesis by blast
  qed
qed

lemma dispatch_issued_Cons:
  assumes "active h"
  shows "issued w (snd (snd (dispatch (ev # evs) h w))) =
     issued w (snd (snd (deliver ev h w))) @
     issued (snd (snd (deliver ev h w)))
       (snd (snd (dispatch evs (fst (snd (deliver ev h w))) (snd (snd (deliver ev h w))))))"
proof -
  let ?h1 = "fst (snd (deliver ev h w))" and ?w1 = "snd (snd (deliver ev h w))"
  obtain xs where xs: "calls ?w1 = calls w @ xs"
    using deliver_calls by blast
  obtain ys where ys: "calls (snd (snd (dispatch evs ?h1 ?w1))) = calls ?w1 @ ys"
    using dispatch_calls by blast
  from xs ys assms show ?thesis
    by (simp add: dispatch_Cons issued_def del: dispatch.simps)
qed

lemma deliver_close_ends:
  assumes "active h" and "conn_calls (issued w (snd (snd (deliver ev h w)))) \<noteq> []"
  shows "\<not> active (fst (snd (deliver ev h w)))"
proof -
  from assms(1) obtain g s where g: "gen h = Some g" and s: "frame g = Suspended s"
    by (auto simp: active_def split: option.splits frame.splits)
  from assms(2) obtain c d where ev: "ev = InputEvent c d"
    and stop: "fst (gen_send d g) = Inl StopIteration"
    using g
    by (cases ev)
       (auto simp: conn_calls_def handle_input_issued handle_close_issued
          handle_exception_issued split: if_splits)
  from stop s have "snd (gen_send d g) = g\<lparr>frame := Finished\<rparr>"
    by (auto simp: gen_send_suspended gen_run_def split: sum.splits)
  then show ?thesis
    using g stop by (simp add: ev handle_input_cases active_def)
qed

lemma dispatch_conn_calls:
  "length (conn_calls (issued w (snd (snd (dispatch evs h w))))) \<le> 1 \<and>
   (\<forall>x \<in> set (conn_calls (issued w (snd (snd (dispatch evs h w))))).
      \<exists>c d. x = Close c \<and> InputEvent c d \<in> set evs)"
proof (induction evs arbitrary: h w)
  case Nil
  then show ?case by (simp add: conn_calls_def)
next
  case (Cons ev evs)
  show ?case
  proof (cases "active h")
    case False
    then show ?thesis by (simp add: dispatch_inactive conn_calls_def)
  next
    case True
    let ?h1 = "fst (snd (deliver ev h w))" and ?w1 = "snd (snd (deliver ev h w))"
    let ?a = "conn_calls (issued w ?w1)"
    let ?b = "conn_calls (issued ?w1 (snd (snd (dispatch evs ?h1 ?w1))))"
    have split: "conn_calls (issued w (snd (snd (dispatch (ev # evs) h w)))) = ?a @ ?b"
      using True by (simp add: dispatch_issued_Cons del: dispatch.simps)
    have a1: "length ?a \<le> 1"
      by (simp add: deliver_conn_calls split: event.splits)
    have a2: "\<forall>x \<in> set ?a. \<exists>c d. x = Close c \<and> InputEvent c d \<in> set (ev # evs)"
    proof
      fix x assume "x \<in> set ?a"
      from deliver_conn_calls_origin [OF this] obtain c d
        where "x = Close c" and "ev = InputEvent c d" by blast
      then show "\<exists>c d. x = Close c \<and> InputEvent c d \<in> set (ev # evs)" by auto
    qed
    have b2: "\<forall>x \<in> set ?b. \<exists>c d. x = Close c \<and> InputEvent c d \<in> set (ev # evs)"
    proof
      fix x assume "x \<in> set ?b"
      with Cons.IH [of ?w1 ?h1] obtain c d
        where "x = Close c" and "InputEvent c d \<in> set evs" by blast
      then show "\<exists>c d. x = Close c \<and> InputEvent c d \<in> set (ev # evs)" by auto
    qed
    have len: "length (?a @ ?b) \<le> 1"
    proof (cases "?a = []")
      case True
      then show ?thesis using Cons.IH [of ?w1 ?h1] by simp
    next
      case False
      with \<open>active h\<close> have "\<not> active ?h1" by (rule deliver_close_ends)
      then have "?b = []" by (simp add: dispatch_inactive conn_calls_def)
      then show ?thesis using a1 by simp
    qed
    from len a2 b2 show ?thesis
      unfolding split by auto
  qed
qed

text \<open>
  Claim C8, as stated, allows one \<^verbatim>\<open>close()\<close> only, on the routine's own completion
  in an input event, over every sequence of events. The handler keeps no record that the
  routine has ended: an input event delivered after the routine returned closes the
  connection a second time, and an input event delivered after a close event cancelled
  the routine closes it although no input made the routine complete.
\<close>

theorem close_repeated_counterexample:
  "ConnectionHandler_init (fresh once_body) 1 world0 =
     (Inr \<lparr>oid = 0, gen = Some (suspended once_body)\<rparr>,
      \<lparr>calls = [GenNext, SetHandler 1 0], next_oid = 1\<rparr>) \<and>
   run_events [InputEvent 1 5, InputEvent 1 6]
     \<lparr>oid = 0, gen = Some (suspended once_body)\<rparr>
     \<lparr>calls = [GenNext, SetHandler 1 0], next_oid = 1\<rparr> =
     ([Inr (), Inr ()], \<lparr>oid = 0, gen = Some \<lparr>body = once_body, frame = Finished\<rparr>\<rparr>,
      \<lparr>calls = [GenNext, SetHandler 1 0, GenSend 5, Close 1, GenSend 6, Close 1],
       next_oid = 1\<rparr>) \<and>
   run_events [CloseEvent 1 3, InputEvent 1 6]
     \<lparr>oid = 0, gen = Some (suspended once_body)\<rparr>
     \<lparr>calls = [GenNext, SetHandler 1 0], next_oid = 1\<rparr> =
     ([Inr (), Inr ()], \<lparr>oid = 0, gen = Some \<lparr>body = once_body, frame = Finished\<rparr>\<rparr>,
      \<lparr>calls = [GenNext, SetHandler 1 0, GenThrow (GeneratorExit 3), GenSend 6, Close 1],
       next_oid = 1\<rparr>)"
  by (simp add: init_cases gen_next_def handle_input_def handle_close_def gen_send_def
      gen_throw_def gen_run_def fresh_def suspended_def once_body_def world0_def log_def)

text \<open>
  Claim C8, amended. The connection calls that the module issues are these and no others.
  Construction issues \<^verbatim>\<open>setHandler\<close> for the new object when priming suspends and
  nothing otherwise. A close or an exception event issues no connection call; an input
  event issues one \<^verbatim>\<open>close()\<close> on its connection when \<^verbatim>\<open>send\<close> raises
  \<open>StopIteration\<close> and nothing otherwise. So over any list of events the connection
  calls are \<^verbatim>\<open>close()\<close> calls on connections of input events of the list. When
  events are delivered only while the handler is active, as \<open>dispatch\<close> does, at most
  one \<^verbatim>\<open>close()\<close> is issued.
\<close>

theorem driver_connection_calls:
  assumes "ConnectionHandler_init g c w = (Inr self, w0)"
  shows "conn_calls (issued w w0) =
           (if fst (gen_next g) = Inr () then [SetHandler c (oid self)] else []) \<and>
         (\<forall>ev h w1.
            conn_calls (issued w1 (snd (snd (deliver ev h w1)))) =
              (case ev of
                 InputEvent c' d \<Rightarrow>
                   if \<exists>g'. gen h = Some g' \<and> fst (gen_send d g') = Inl StopIteration
                   then [Close c'] else []
               | CloseEvent c' r \<Rightarrow> []
               | ExceptionEvent c' e \<Rightarrow> [])) \<and>
         (\<forall>evs. \<forall>x \<in> set (conn_calls (issued w0 (snd (snd (run_events evs self w0))))).
            \<exists>c' d. x = Close c' \<and> InputEvent c' d \<in> set evs) \<and>
         (\<forall>evs. length (conn_calls (issued w0 (snd (snd (dispatch evs self w0))))) \<le> 1 \<and>
            (\<forall>x \<in> set (conn_calls (issued w0 (snd (snd (dispatch evs self w0))))).
               \<exists>c' d. x = Close c' \<and> InputEvent c' d \<in> set evs))"
proof -
  have 1: "conn_calls (issued w w0) =
           (if fst (gen_next g) = Inr () then [SetHandler c (oid self)] else [])"
    using assms
    by (cases "gen_next g")
       (auto simp: init_cases conn_calls_def issued_def split: sum.splits if_splits)
  have 2: "conn_calls (issued w1 (snd (snd (deliver ev h w1)))) =
              (case ev of
                 InputEvent c' d \<Rightarrow>
                   if \<exists>g'. gen h = Some g' \<and> fst (gen_send d g') = Inl StopIteration
                   then [Close c'] else []
               | CloseEvent c' r \<Rightarrow> []
               | ExceptionEvent c' e \<Rightarrow> [])"
    for ev and h :: "('c, 'd) ConnectionHandler" and w1
    by (rule deliver_conn_calls)
  have 3: "\<forall>x \<in> set (conn_calls (issued w0 (snd (snd (run_events evs self w0))))).
            \<exists>c' d. x = Close c' \<and> InputEvent c' d \<in> set evs" for evs
    using run_events_conn_calls by blast
  have 4: "length (conn_calls (issued w0 (snd (snd (dispatch evs self w0))))) \<le> 1 \<and>
            (\<forall>x \<in> set (conn_calls (issued w0 (snd (snd (dispatch evs self w0))))).
               \<exists>c' d. x = Close c' \<and> InputEvent c' d \<in> set evs)" for evs
    by (rule dispatch_conn_calls)
  from 1 2 3 4 show ?thesis by blast
qed

theorem driver_connection_calls_witness:
  "ConnectionHandler_init (fresh once_body) 1 world0 =
     (Inr \<lparr>oid = 0, gen = Some (suspended once_body)\<rparr>,
      \<lparr>calls = [GenNext, SetHandler 1 0], next_oid = 1\<rparr>) \<and>
   conn_calls (issued world0 \<lparr>calls = [GenNext, SetHandler 1 0], next_oid = 1\<rparr>) =
     [SetHandler 1 0] \<and>
   length (conn_calls (issued \<lparr>calls = [GenNext, SetHandler 1 0], next_oid = 1\<rparr>
     (snd (snd (dispatch [InputEvent 1 5, InputEvent 1 6]
        \<lparr>oid = 0, gen = Some (suspended once_body)\<rparr>
        \<lparr>calls = [GenNext, SetHandler 1 0], next_oid = 1\<rparr>))))) \<le> 1 \<and>
   dispatch [InputEvent 1 5, InputEvent 1 6]
     \<lparr>oid = 0, gen = Some (suspended once_body)\<rparr>
     \<lparr>calls = [GenNext, SetHandler 1 0], next_oid = 1\<rparr> =
     ([Inr ()], \<lparr>oid = 0, gen = Some \<lparr>body = once_body, frame = Finished\<rparr>\<rparr>,
      \<lparr>calls = [GenNext, SetHandler 1 0, GenSend 5, Close 1], next_oid = 1\<rparr>)"
proof -
  have a: "ConnectionHandler_init (fresh once_body) 1 world0 =
     (Inr \<lparr>oid = 0, gen = Some (suspended once_body)\<rparr>,
      \<lparr>calls = [GenNext, SetHandler 1 0], next_oid = 1\<rparr>)"
    by (simp add: init_cases gen_next_def gen_run_def fresh_def suspended_def
        once_body_def world0_def)
  have n: "fst (gen_next (fresh once_body)) = Inr ()"
    by (simp add: gen_next_def gen_run_def fresh_def once_body_def)
  note t = driver_connection_calls [OF a]
  have 1: "conn_calls (issued world0 \<lparr>calls = [GenNext, SetHandler 1 0], next_oid = 1\<rparr>) =
     [SetHandler 1 0]"
    using t [THEN conjunct1] n by simp
  have 2: "length (conn_calls (issued \<lparr>calls = [GenNext, SetHandler 1 0], next_oid = 1\<rparr>
     (snd (snd (dispatch [InputEvent 1 5, InputEvent 1 6]
        \<lparr>oid = 0, gen = Some (suspended once_body)\<rparr>
        \<lparr>calls = [GenNext, SetHandler 1 0], next_oid = 1\<rparr>))))) \<le> 1"
    using t [THEN conjunct2, THEN conjunct2, THEN conjunct2] by blast
  have 3: "dispatch [InputEvent 1 5, InputEvent 1 6]
     \<lparr>oid = 0, gen = Some (suspended once_body)\<rparr>
     \<lparr>calls = [GenNext, SetHandler 1 0], next_oid = 1\<rparr> =
     ([Inr ()], \<lparr>oid = 0, gen = Some \<lparr>body = once_body, frame = Finished\<rparr>\<rparr>,
      \<lparr>calls = [GenNext, SetHandler 1 0, GenSend 5, Close 1], next_oid = 1\<rparr>)"
    by (simp add: active_def handle_input_def gen_send_def gen_run_def suspended_def
        once_body_def log_def)
  from a 1 2 3 show ?thesis by blast
qed

end
